theory Spec2Isabelle
  imports Complex_Main
begin

section \<open>Data model\<close>

text \<open>
  The dashboard of \<^verbatim>\<open>st.py\<close> works on a pandas DataFrame with the columns
  \<^verbatim>\<open>comment\<close>, \<^verbatim>\<open>sentiment_label\<close>, \<^verbatim>\<open>sentiment_score\<close> and \<^verbatim>\<open>summary\<close>.
  A cell of a text column holds a string or is missing (pandas' NaN); a cell of the score
  column holds a number or is missing. A missing cell is \<open>None\<close>.

  Numbers are exact rationals here: comparisons of two binary64 values that are not NaN
  agree with the comparison of the numbers they denote, and the rounding of binary64
  arithmetic is outside this model. The score column has a numeric dtype, so it holds no
  strings.

  A DataFrame carries its column names (\<^verbatim>\<open>df.columns\<close>) and its rows in file order. The
  field of a row for a column that the frame does not have is not read by any function
  below.
\<close>

record row =
  comment :: "string option"
  sentiment_label :: "string option"
  sentiment_score :: "rat option"
  summary :: "string option"

record dataframe =
  columns :: "string list"
  rows :: "row list"

text \<open>\<^verbatim>\<open>len(df)\<close> and \<^verbatim>\<open>df.empty\<close> (some axis has length 0).\<close>

definition len :: "dataframe \<Rightarrow> nat" where
  "len df = length (rows df)"

definition empty_df :: "dataframe \<Rightarrow> bool" where
  "empty_df df = (rows df = [] \<or> columns df = [])"

text \<open>
  \<^verbatim>\<open>Series.unique()\<close>: the distinct values in order of first appearance, a missing value
  included (once).
\<close>

definition unique :: "'a list \<Rightarrow> 'a list" where
  "unique xs = rev (remdups (rev xs))"

text \<open>
  \<^verbatim>\<open>Series.isin(values)\<close>, row by row: membership, where a missing cell matches a missing
  value of the list.
\<close>

definition isin :: "'a \<Rightarrow> 'a list \<Rightarrow> bool" where
  "isin v vs = (v \<in> set vs)"

text \<open>
  \<^verbatim>\<open>Series >= x\<close>, row by row, on a numeric column: a comparison with NaN is False.
\<close>

definition ge_cell :: "rat option \<Rightarrow> rat \<Rightarrow> bool" where
  "ge_cell c x = (case c of None \<Rightarrow> False | Some v \<Rightarrow> x \<le> v)"

section \<open>Filter options and filtering (\<^verbatim>\<open>display_analysis_results\<close>, lines 129--159)\<close>

text \<open>
  The multiselect offers \<^verbatim>\<open>df['sentiment_label'].unique()\<close> and selects all of it by
  default; without the column \<^verbatim>\<open>sentiment_filter\<close> is \<^verbatim>\<open>None\<close>.
\<close>

definition default_sentiment_filter :: "dataframe \<Rightarrow> string option list option" where
  "default_sentiment_filter df =
     (if ''sentiment_label'' \<in> set (columns df)
      then Some (unique (map sentiment_label (rows df)))
      else None)"

text \<open>Python truth value of \<^verbatim>\<open>sentiment_filter\<close>: \<^verbatim>\<open>None\<close> and the empty list are falsy.\<close>

fun truthy :: "'a list option \<Rightarrow> bool" where
  "truthy None = False"
| "truthy (Some []) = False"
| "truthy (Some (v # vs)) = True"

fun selected :: "'a list option \<Rightarrow> 'a list" where
  "selected None = []"
| "selected (Some vs) = vs"

text \<open>
  Lines 155--159:
  \<^verbatim>\<open>
  filtered_df = df.copy()
  if sentiment_filter and 'sentiment_label' in df.columns:
      filtered_df = filtered_df[filtered_df['sentiment_label'].isin(sentiment_filter)]
  if 'sentiment_score' in df.columns:
      filtered_df = filtered_df[filtered_df['sentiment_score'] >= min_confidence]
  \<close>
  Boolean indexing keeps the rows whose mask is True, in order, and keeps the columns.
\<close>

definition label_step :: "dataframe \<Rightarrow> string option list option \<Rightarrow> dataframe \<Rightarrow> dataframe" where
  "label_step df sentiment_filter filtered_df =
     (if truthy sentiment_filter \<and> ''sentiment_label'' \<in> set (columns df)
      then filtered_df\<lparr>rows :=
             filter (\<lambda>r. isin (sentiment_label r) (selected sentiment_filter)) (rows filtered_df)\<rparr>
      else filtered_df)"

definition score_step :: "dataframe \<Rightarrow> rat \<Rightarrow> dataframe \<Rightarrow> dataframe" where
  "score_step df min_confidence filtered_df =
     (if ''sentiment_score'' \<in> set (columns df)
      then filtered_df\<lparr>rows :=
             filter (\<lambda>r. ge_cell (sentiment_score r) min_confidence) (rows filtered_df)\<rparr>
      else filtered_df)"

definition apply_filters :: "dataframe \<Rightarrow> string option list option \<Rightarrow> rat \<Rightarrow> dataframe" where
  "apply_filters df sentiment_filter min_confidence =
     score_step df min_confidence (label_step df sentiment_filter df)"

section \<open>Score statistics (\<^verbatim>\<open>display_analysis_results\<close>, lines 262--275)\<close>

text \<open>
  \<^verbatim>\<open>filtered_df['sentiment_score'].describe()\<close> works on the cells that are not missing.
  Its entries are NaN (\<open>None\<close>) where pandas has no value: every entry but the count on
  an empty series, and the standard deviation, which pandas computes with \<^verbatim>\<open>ddof=1\<close>
  (the sum of squared deviations over \<open>N - 1\<close>), on fewer than two values.
\<close>

fun dropna :: "'a option list \<Rightarrow> 'a list" where
  "dropna [] = []"
| "dropna (None # cs) = dropna cs"
| "dropna (Some v # cs) = v # dropna cs"

definition series_mean :: "rat list \<Rightarrow> rat option" where
  "series_mean xs = (if xs = [] then None else Some (sum_list xs / of_nat (length xs)))"

definition sum_sq_dev :: "rat list \<Rightarrow> rat" where
  "sum_sq_dev xs =
     (let m = sum_list xs / of_nat (length xs) in sum_list (map (\<lambda>x. (x - m)\<^sup>2) xs))"

definition series_std :: "rat list \<Rightarrow> real option" where
  "series_std xs =
     (if length xs < 2 then None
      else Some (sqrt (of_rat (sum_sq_dev xs / of_nat (length xs - 1)))))"

definition series_min :: "rat list \<Rightarrow> rat option" where
  "series_min xs = (case xs of [] \<Rightarrow> None | x # ys \<Rightarrow> Some (fold min ys x))"

definition series_max :: "rat list \<Rightarrow> rat option" where
  "series_max xs = (case xs of [] \<Rightarrow> None | x # ys \<Rightarrow> Some (fold max ys x))"

text \<open>The 50th percentile with linear interpolation between the two middle values.\<close>

definition series_median :: "rat list \<Rightarrow> rat option" where
  "series_median xs =
     (let s = sort xs; n = length s in
      if n = 0 then None
      else if odd n then Some (s ! (n div 2))
      else Some ((s ! (n div 2 - 1) + s ! (n div 2)) / 2))"

record score_stats =
  count :: nat
  mean :: "rat option"
  std :: "real option"
  minimum :: "rat option"
  median :: "rat option"
  maximum :: "rat option"

definition describe :: "rat option list \<Rightarrow> score_stats" where
  "describe cs =
     (let xs = dropna cs in
      \<lparr>count = length xs, mean = series_mean xs, std = series_std xs,
       minimum = series_min xs, median = series_median xs, maximum = series_max xs\<rparr>)"

text \<open>The statistics are shown only when the filtered frame has the score column.\<close>

definition score_statistics :: "dataframe \<Rightarrow> score_stats option" where
  "score_statistics filtered_df =
     (if ''sentiment_score'' \<in> set (columns filtered_df)
      then Some (describe (map sentiment_score (rows filtered_df)))
      else None)"

section \<open>Value counts\<close>

text \<open>
  \<^verbatim>\<open>Series.value_counts()\<close>: the distinct values that are not missing, each with the number
  of its occurrences, by descending count. Values of equal count are kept here in the order
  of their first appearance; no statement below depends on the order among equal counts.
\<close>

definition value_counts :: "'a list \<Rightarrow> ('a \<times> nat) list" where
  "value_counts xs =
     sort_key (\<lambda>vc. - int (snd vc)) (map (\<lambda>v. (v, count_list xs v)) (unique xs))"

text \<open>\<^verbatim>\<open>Series.get(key, default)\<close> on the result of \<^verbatim>\<open>value_counts\<close>.\<close>

definition series_get :: "('a \<times> nat) list \<Rightarrow> 'a \<Rightarrow> nat \<Rightarrow> nat" where
  "series_get counts key dflt = (case map_of counts key of Some c \<Rightarrow> c | None \<Rightarrow> dflt)"

section \<open>Sentiment summary of the CSV path (\<^verbatim>\<open>main\<close>, lines 341--350)\<close>

datatype error = ZeroDivisionError

fun str_of_error :: "error \<Rightarrow> string" where
  "str_of_error ZeroDivisionError = ''division by zero''"

text \<open>
  \<^verbatim>\<open>count / total\<close>: a count that \<^verbatim>\<open>get\<close> found is a numpy integer and the default is the
  Python integer 0. With \<open>total = 0\<close> the frame has no rows, so both lookups give the
  default, and Python's division of 0 by 0 raises.
\<close>

definition true_div :: "nat \<Rightarrow> nat \<Rightarrow> error + rat" where
  "true_div a b = (if b = 0 then Inl ZeroDivisionError else Inr (of_nat a / of_nat b))"

record sentiment_summary =
  distribution :: "(string \<times> nat) list"
  average_confidence :: "rat option"
  positive_percentage :: rat
  negative_percentage :: rat

definition csv_sentiment_analysis :: "dataframe \<Rightarrow> error + sentiment_summary option" where
  "csv_sentiment_analysis df =
     (if ''sentiment_label'' \<in> set (columns df) then
        (let sentiment_counts = value_counts (dropna (map sentiment_label (rows df)));
             total = len df
         in case true_div (series_get sentiment_counts ''POSITIVE''
                             (series_get sentiment_counts ''positive'' 0)) total of
              Inl e \<Rightarrow> Inl e
            | Inr p \<Rightarrow>
               (case true_div (series_get sentiment_counts ''NEGATIVE''
                                 (series_get sentiment_counts ''negative'' 0)) total of
                  Inl e \<Rightarrow> Inl e
                | Inr n \<Rightarrow>
                    Inr (Some \<lparr>distribution = sentiment_counts,
                               average_confidence =
                                 (if ''sentiment_score'' \<in> set (columns df)
                                  then series_mean (dropna (map sentiment_score (rows df)))
                                  else Some 0),
                               positive_percentage = p * 100,
                               negative_percentage = n * 100\<rparr>)))
      else Inr None)"

section \<open>The percentages in binary64 arithmetic (\<^verbatim>\<open>main\<close>, lines 348--349)\<close>

text \<open>
  \<open>csv_sentiment_analysis\<close> gives the two percentages as exact numbers: which rows are
  counted, over which total. The program computes them in binary64: the two integers are
  converted, the quotient is rounded, and the product with 100 is rounded again. This
  section has the rounded values.

  The bit length of a natural number (Python's \<^verbatim>\<open>int.bit_length\<close>):
\<close>

fun bit_length :: "nat \<Rightarrow> nat" where
  "bit_length n = (if n = 0 then 0 else Suc (bit_length (n div 2)))"

declare bit_length.simps [simp del]

text \<open>The exponent \<open>k\<close> of a positive number \<open>q\<close>: \<open>2 powi k \<le> q < 2 powi (k + 1)\<close>.\<close>

definition log2_floor :: "rat \<Rightarrow> int" where
  "log2_floor q =
     (if 1 \<le> q then int (bit_length (nat \<lfloor>q\<rfloor>)) - 1
      else - int (bit_length (nat (\<lceil>1 / q\<rceil> - 1))))"

text \<open>Rounding to the nearest integer, a tie to the even one.\<close>

definition round_half_even :: "rat \<Rightarrow> int" where
  "round_half_even x =
     (let f = \<lfloor>x\<rfloor>; d = x - of_int f
      in if d < 1 / 2 then f else if 1 / 2 < d then f + 1 else if even f then f else f + 1)"

text \<open>
  The binary64 number nearest to a rational, a tie to the one with the even significand:
  the significand has 53 bits. The range of the exponent is not bounded here, so there is
  no overflow and there are no subnormal numbers; the numbers rounded below lie between
  \<open>1 / n\<close> and \<open>100 * n\<close> for a number \<open>n\<close> of rows, far inside the range.
\<close>

definition binary64 :: "rat \<Rightarrow> rat" where
  "binary64 q =
     (if q = 0 then 0
      else let u = 2 powi (log2_floor \<bar>q\<bar> - 52)
           in sgn q * of_int (round_half_even (\<bar>q\<bar> / u)) * u)"


text \<open>
  \<^verbatim>\<open>count / total\<close> in binary64: the count, an integer of 64 bits that \<^verbatim>\<open>value_counts\<close>
  gives, and the total, a Python integer, are converted to binary64 and the quotient is
  rounded. As with \<open>true_div\<close>, the division raises only for \<open>total = 0\<close>, where the
  count is the Python integer 0 that \<^verbatim>\<open>get\<close> falls back to.
\<close>

definition true_div_binary64 :: "nat \<Rightarrow> nat \<Rightarrow> error + rat" where
  "true_div_binary64 a b =
     (if b = 0 then Inl ZeroDivisionError
      else Inr (binary64 (binary64 (of_nat a) / binary64 (of_nat b))))"

text \<open>
  Lines 348--349 with the arithmetic of the program: the pair of \<^verbatim>\<open>positive_percentage\<close>
  and \<^verbatim>\<open>negative_percentage\<close>.
\<close>

definition csv_percentages_binary64 :: "dataframe \<Rightarrow> error + (rat \<times> rat) option" where
  "csv_percentages_binary64 df =
     (if ''sentiment_label'' \<in> set (columns df) then
        (let sentiment_counts = value_counts (dropna (map sentiment_label (rows df)));
             total = len df
         in case true_div_binary64 (series_get sentiment_counts ''POSITIVE''
                                      (series_get sentiment_counts ''positive'' 0)) total of
              Inl e \<Rightarrow> Inl e
            | Inr p \<Rightarrow>
               (case true_div_binary64 (series_get sentiment_counts ''NEGATIVE''
                                          (series_get sentiment_counts ''negative'' 0)) total of
                  Inl e \<Rightarrow> Inl e
                | Inr n \<Rightarrow> Inr (Some (binary64 (p * 100), binary64 (n * 100)))))
      else Inr None)"

section \<open>Word frequency (\<^verbatim>\<open>display_analysis_results\<close>, lines 230--241)\<close>

text \<open>
  A string is the list of its code points, and a character is a code point below 256,
  which is what the type \<open>char\<close> holds; so \<^verbatim>\<open>len\<close> is the length of the list. On these
  characters \<^verbatim>\<open>str.isspace\<close> holds of 9 to 13, 28 to 32, 133 and 160, and \<^verbatim>\<open>str.lower\<close>
  changes, one character at a time, the letters A to Z and the capital letters 192 to 222
  but the multiplication sign 215. Code points from 256 on are outside the strings of
  this model.
\<close>

definition py_isspace :: "char \<Rightarrow> bool" where
  "py_isspace c =
     (c \<in> set [CHR 0x09, CHR 0x0A, CHR 0x0B, CHR 0x0C, CHR 0x0D,
                CHR 0x1C, CHR 0x1D, CHR 0x1E, CHR 0x1F, CHR 0x20, CHR 0x85, CHR 0xA0])"

definition upper_letters :: string where
  "upper_letters = ''ABCDEFGHIJKLMNOPQRSTUVWXYZ'' @
     [CHR 0xC0, CHR 0xC1, CHR 0xC2, CHR 0xC3, CHR 0xC4, CHR 0xC5, CHR 0xC6, CHR 0xC7,
      CHR 0xC8, CHR 0xC9, CHR 0xCA, CHR 0xCB, CHR 0xCC, CHR 0xCD, CHR 0xCE, CHR 0xCF,
      CHR 0xD0, CHR 0xD1, CHR 0xD2, CHR 0xD3, CHR 0xD4, CHR 0xD5, CHR 0xD6,
      CHR 0xD8, CHR 0xD9, CHR 0xDA, CHR 0xDB, CHR 0xDC, CHR 0xDD, CHR 0xDE]"

definition lower_letters :: string where
  "lower_letters = ''abcdefghijklmnopqrstuvwxyz'' @
     [CHR 0xE0, CHR 0xE1, CHR 0xE2, CHR 0xE3, CHR 0xE4, CHR 0xE5, CHR 0xE6, CHR 0xE7,
      CHR 0xE8, CHR 0xE9, CHR 0xEA, CHR 0xEB, CHR 0xEC, CHR 0xED, CHR 0xEE, CHR 0xEF,
      CHR 0xF0, CHR 0xF1, CHR 0xF2, CHR 0xF3, CHR 0xF4, CHR 0xF5, CHR 0xF6,
      CHR 0xF8, CHR 0xF9, CHR 0xFA, CHR 0xFB, CHR 0xFC, CHR 0xFD, CHR 0xFE]"

definition lower_char :: "char \<Rightarrow> char" where
  "lower_char c =
     (case map_of (zip upper_letters lower_letters) c of
        Some d \<Rightarrow> d
      | None \<Rightarrow> c)"

definition lower :: "string \<Rightarrow> string" where
  "lower s = map lower_char s"

text \<open>
  \<^verbatim>\<open>str.split()\<close> without arguments: the maximal runs of characters that are not white
  space. \<open>cur\<close> is the run being read, last character first.
\<close>

fun split_from :: "string \<Rightarrow> string \<Rightarrow> string list" where
  "split_from cur [] = (if cur = [] then [] else [rev cur])"
| "split_from cur (c # cs) =
     (if py_isspace c
      then (if cur = [] then split_from [] cs else rev cur # split_from [] cs)
      else split_from (c # cur) cs)"

definition split :: "string \<Rightarrow> string list" where
  "split s = split_from [] s"

text \<open>\<^verbatim>\<open>sep.join(xs)\<close> on strings.\<close>

fun join :: "string \<Rightarrow> string list \<Rightarrow> string" where
  "join sep [] = []"
| "join sep [x] = x"
| "join sep (x # y # ys) = x @ sep @ join sep (y # ys)"

text \<open>
  \<^verbatim>\<open>Series.astype(str)\<close> on the comment column leaves a string as it is. What it makes of
  a missing cell depends on the cell and on the version of pandas: the text \<^verbatim>\<open>nan\<close> for a
  NaN and the text \<^verbatim>\<open>None\<close> for a \<^verbatim>\<open>None\<close> under pandas 2, and under pandas 3 the cell
  stays missing. \<open>missing_text i\<close> is the outcome for the missing cell of row \<open>i\<close>, with
  \<open>None\<close> for a cell that stays missing.
\<close>

definition astype_str :: "(nat \<Rightarrow> string option) \<Rightarrow> string option list \<Rightarrow> string option list" where
  "astype_str missing_text cells =
     map (\<lambda>(i, c). case c of None \<Rightarrow> missing_text i | Some s \<Rightarrow> Some s) (enumerate 0 cells)"

text \<open>
  \<^verbatim>\<open>" ".join(...)\<close> over the cells: on a cell that is still missing (a float) it raises
  \<^verbatim>\<open>TypeError\<close>.
\<close>

datatype type_error = TypeError

definition join_cells :: "string \<Rightarrow> string option list \<Rightarrow> type_error + string" where
  "join_cells sep cells =
     (if None \<in> set cells then Inl TypeError else Inr (join sep (dropna cells)))"

definition stop_words :: "string set" where
  "stop_words = set [''the'', ''and'', ''or'', ''but'', ''in'', ''on'', ''at'', ''to'', ''for'',
     ''of'', ''with'', ''by'', ''from'', ''up'', ''about'', ''into'', ''through'', ''during'',
     ''before'', ''after'', ''above'', ''below'', ''between'', ''among'', ''through'', ''during'',
     ''before'', ''after'', ''above'', ''below'', ''between'']"

text \<open>
  The branch of the word tab that is taken when the report carries no word cloud image:
  \<^verbatim>\<open>
  all_text = " ".join(filtered_df['comment'].astype(str))
  words = all_text.lower().split()
  words = [word for word in words if word not in stop_words and len(word) > 2]
  word_freq = pd.Series(words).value_counts().head(20)
  \<close>
  Without a comment column there is no word frequency.
\<close>

definition word_frequency ::
  "(nat \<Rightarrow> string option) \<Rightarrow> dataframe \<Rightarrow> type_error + (string \<times> nat) list option" where
  "word_frequency missing_text filtered_df =
     (if ''comment'' \<in> set (columns filtered_df) then
        (case join_cells '' '' (astype_str missing_text (map comment (rows filtered_df))) of
           Inl e \<Rightarrow> Inl e
         | Inr all_text \<Rightarrow>
             (let words = split (lower all_text);
                  words = filter (\<lambda>word. word \<notin> stop_words \<and> length word > 2) words
              in Inr (Some (take 20 (value_counts words)))))
      else Inr None)"

text \<open>
  Two outcomes of \<^verbatim>\<open>astype(str)\<close> on missing cells: every one becomes the text \<^verbatim>\<open>nan\<close>, and
  every one stays missing.
\<close>

definition nan_text :: "nat \<Rightarrow> string option" where
  "nan_text i = Some ''nan''"

definition stays_missing :: "nat \<Rightarrow> string option" where
  "stays_missing i = None"

text \<open>
  The count that the specification speaks of: the occurrences of a token among the tokens
  of the comments of the frame, each comment lower-cased and split at white space. A
  missing comment has no tokens.
\<close>

definition occurrence_count :: "dataframe \<Rightarrow> string \<Rightarrow> nat" where
  "occurrence_count filtered_df w =
     count_list (concat (map (\<lambda>s. split (lower s)) (dropna (map comment (rows filtered_df))))) w"

section \<open>The percentage of the specification\<close>


section \<open>Loading (\<^verbatim>\<open>main\<close>, lines 315--361)\<close>

text \<open>
  What \<^verbatim>\<open>display_analysis_results\<close> receives: the dictionary of a JSON report or the one
  that the CSV path builds, with the keys that the function reads. A key that is absent
  is \<open>None\<close>. \<^verbatim>\<open>total_comments\<close> stands for the \<^verbatim>\<open>metadata\<close> entry of that name.
\<close>

record results =
  data :: "dataframe option"
  total_comments :: "nat option"
  sentiment_analysis :: "sentiment_summary option"

text \<open>
  The page after one run of \<^verbatim>\<open>main\<close>: the notices written with \<^verbatim>\<open>st.success\<close> and
  \<^verbatim>\<open>st.error\<close> (the error notices carry \<^verbatim>\<open>str(e)\<close> of the exception caught), and the
  results handed to \<^verbatim>\<open>display_analysis_results\<close>, if that call was reached. Without an
  upload the page is the welcome screen.
\<close>

datatype notice =
    Success_json
  | Success_csv nat
  | Error_json string
  | Error_csv string
  | Welcome

record page =
  notices :: "notice list"
  displayed :: "results option"

text \<open>
  \<^verbatim>\<open>json.load\<close> and \<^verbatim>\<open>pd.read_csv\<close> are library functions and are parameters here: each
  returns the parsed value, or \<open>Inl\<close> of the message of the exception it raises.

  What \<^verbatim>\<open>display_analysis_results\<close> renders is not part of \<open>main\<close> here: \<open>displayed\<close>
  records that the call was reached, and with which results. An exception raised while
  rendering would be caught by the same \<^verbatim>\<open>except\<close> clause and is outside this model.
\<close>

definition main ::
  "('f \<Rightarrow> string + results) \<Rightarrow> ('f \<Rightarrow> string + dataframe) \<Rightarrow> 'f option \<Rightarrow> 'f option \<Rightarrow> page"
where
  "main json_load read_csv uploaded_json uploaded_csv =
     (case uploaded_json of
        Some f \<Rightarrow>
          (case json_load f of
             Inl e \<Rightarrow> \<lparr>notices = [Error_json e], displayed = None\<rparr>
           | Inr json_data \<Rightarrow> \<lparr>notices = [Success_json], displayed = Some json_data\<rparr>)
      | None \<Rightarrow>
          (case uploaded_csv of
             Some f \<Rightarrow>
               (case read_csv f of
                  Inl e \<Rightarrow> \<lparr>notices = [Error_csv e], displayed = None\<rparr>
                | Inr df \<Rightarrow>
                    (case csv_sentiment_analysis df of
                       Inl e \<Rightarrow>
                         \<lparr>notices = [Success_csv (len df), Error_csv (str_of_error e)],
                          displayed = None\<rparr>
                     | Inr analysis \<Rightarrow>
                         \<lparr>notices = [Success_csv (len df)],
                          displayed = Some \<lparr>data = Some df, total_comments = Some (len df),
                                             sentiment_analysis = analysis\<rparr>\<rparr>))
           | None \<Rightarrow> \<lparr>notices = [Welcome], displayed = None\<rparr>))"

text \<open>
  The Table that a page shows (line 125): the frame of the results, unless it is absent
  or empty.
\<close>

definition table :: "page \<Rightarrow> dataframe option" where
  "table pg =
     (case displayed pg of
        None \<Rightarrow> None
      | Some res \<Rightarrow>
          (case data res of
             None \<Rightarrow> None
           | Some df \<Rightarrow> if empty_df df then None else Some df))"

section \<open>Basic facts\<close>

lemma set_unique [simp]: "set (unique xs) = set xs"
  by (simp add: unique_def)

lemma isin_iff [simp]: "isin v vs \<longleftrightarrow> v \<in> set vs"
  by (simp add: isin_def)

lemma ge_cell_simps [simp]:
  "ge_cell None x = False"
  "ge_cell (Some v) x = (x \<le> v)"
  by (simp_all add: ge_cell_def)

lemma columns_apply_filters [simp]:
  "columns (apply_filters df sentiment_filter min_confidence) = columns df"
  by (simp add: apply_filters_def score_step_def label_step_def)

lemma rows_apply_filters:
  "rows (apply_filters df sentiment_filter min_confidence) =
     filter (\<lambda>r. (truthy sentiment_filter \<and> ''sentiment_label'' \<in> set (columns df)
                    \<longrightarrow> sentiment_label r \<in> set (selected sentiment_filter))
                \<and> (''sentiment_score'' \<in> set (columns df)
                    \<longrightarrow> ge_cell (sentiment_score r) min_confidence))
            (rows df)"
  by (auto simp add: apply_filters_def score_step_def label_step_def intro: filter_cong)

lemma ge_cell_iff: "ge_cell c x \<longleftrightarrow> (\<exists>v. c = Some v \<and> x \<le> v)"
  by (cases c) simp_all

lemma label_step_default: "label_step df (default_sentiment_filter df) df = df"
  by (auto simp add: label_step_def default_sentiment_filter_def)

lemma distinct_unique [simp]: "distinct (unique xs)"
  by (simp add: unique_def)

lemma distinct_map_insort_key:
  "distinct (map g (insort_key f x xs)) \<longleftrightarrow> g x \<notin> g ` set xs \<and> distinct (map g xs)"
  by (induction xs) (auto simp add: set_insort_key)

lemma distinct_map_sort_key: "distinct (map g (sort_key f xs)) \<longleftrightarrow> distinct (map g xs)"
  by (induction xs) (simp_all add: distinct_map_insort_key)

lemma distinct_keys_value_counts: "distinct (map fst (value_counts xs))"
  by (simp add: value_counts_def distinct_map_sort_key comp_def)

lemma set_value_counts: "set (value_counts xs) = (\<lambda>v. (v, count_list xs v)) ` set xs"
  by (simp add: value_counts_def)

lemma map_of_value_counts:
  "map_of (value_counts xs) k = (if k \<in> set xs then Some (count_list xs k) else None)"
proof (cases "k \<in> set xs")
  case True
  then have "(k, count_list xs k) \<in> set (value_counts xs)"
    by (simp add: set_value_counts)
  with distinct_keys_value_counts [of xs] True show ?thesis
    by simp
next
  case False
  then have "k \<notin> fst ` set (value_counts xs)"
    by (auto simp add: set_value_counts)
  with False show ?thesis
    by (simp add: map_of_eq_None_iff)
qed

lemma series_get_value_counts:
  "series_get (value_counts xs) k d = (if k \<in> set xs then count_list xs k else d)"
  by (simp add: series_get_def map_of_value_counts)

text \<open>
  The count that the two nested lookups give: that of the first key when it occurs, else
  that of the second.
\<close>

lemma nested_get:
  "series_get (value_counts xs) a (series_get (value_counts xs) b 0)
     = count_list xs (if a \<in> set xs then a else b)"
  by (simp add: series_get_value_counts)

lemma count_list_dropna: "count_list (dropna cs) k = count_list cs (Some k)"
  by (induction cs rule: dropna.induct) simp_all

lemma set_dropna: "k \<in> set (dropna cs) \<longleftrightarrow> Some k \<in> set cs"
  by (induction cs rule: dropna.induct) auto

lemma length_dropna: "length (dropna cs) \<le> length cs"
  by (induction cs rule: dropna.induct) simp_all

lemma count_list_two: "a \<noteq> b \<Longrightarrow> count_list xs a + count_list xs b \<le> length xs"
  by (induction xs) auto

lemma count_list_all: "\<forall>x \<in> set xs. x = a \<Longrightarrow> count_list xs a = length xs"
  by (induction xs) auto

lemma count_list_le_length: "count_list xs a \<le> length xs"
  by (induction xs) auto



lemma sqrt_sq_scale:
  fixes q k :: rat
  assumes "0 \<le> q" and "0 < k"
  shows "(sqrt (of_rat (q / k)))\<^sup>2 * of_rat k = (of_rat q :: real)"
proof -
  from assms have "0 \<le> q / k" by simp
  then have "(0::real) \<le> of_rat (q / k)" by (simp only: zero_le_of_rat_iff)
  then have "(sqrt (of_rat (q / k)))\<^sup>2 = (of_rat (q / k) :: real)" by simp
  moreover have "(of_rat (q / k) :: real) * of_rat k = of_rat q"
    using assms(2) by (simp add: of_rat_mult [symmetric])
  ultimately show ?thesis by simp
qed

lemma sum_sq_dev_nonneg: "0 \<le> sum_sq_dev xs"
  unfolding sum_sq_dev_def Let_def by (rule sum_list_nonneg) auto

lemma sample_std_divides_by_n_minus_one:
  assumes "''sentiment_score'' \<in> set (columns filtered_df)"
    and "2 \<le> length (dropna (map sentiment_score (rows filtered_df)))"
  shows "\<exists>stats s. score_statistics filtered_df = Some stats \<and> std stats = Some s \<and> 0 \<le> s
           \<and> s\<^sup>2 * of_rat (of_nat (count stats - 1))
               = of_rat (sum_sq_dev (dropna (map sentiment_score (rows filtered_df))))"
proof -
  let ?xs = "dropna (map sentiment_score (rows filtered_df))"
  define k :: rat where "k = of_nat (length ?xs - 1)"
  have pos: "0 < k" using assms(2) by (simp add: k_def)
  have sq: "(sqrt (of_rat (sum_sq_dev ?xs / k)))\<^sup>2 * of_rat k = (of_rat (sum_sq_dev ?xs) :: real)"
    using sum_sq_dev_nonneg pos by (rule sqrt_sq_scale)
  have std: "series_std ?xs = Some (sqrt (of_rat (sum_sq_dev ?xs / k)))"
    using assms(2) by (simp add: series_std_def k_def)
  have st: "score_statistics filtered_df = Some (describe (map sentiment_score (rows filtered_df)))"
    using assms(1) by (simp add: score_statistics_def)
  have c: "count (describe (map sentiment_score (rows filtered_df))) = length ?xs"
    and s: "std (describe (map sentiment_score (rows filtered_df))) = series_std ?xs"
    by (simp_all add: describe_def Let_def)
  have "std (describe (map sentiment_score (rows filtered_df)))
          = Some (sqrt (of_rat (sum_sq_dev ?xs / k)))"
    by (simp only: s std)
  moreover have "(0::real) \<le> sqrt (of_rat (sum_sq_dev ?xs / k))" 
    using sum_sq_dev_nonneg [of ?xs] pos by simp
  moreover have "(sqrt (of_rat (sum_sq_dev ?xs / k)))\<^sup>2
        * of_rat (of_nat (count (describe (map sentiment_score (rows filtered_df))) - 1))
      = (of_rat (sum_sq_dev ?xs) :: real)"
    using sq by (simp only: c k_def)
  ultimately show ?thesis
    using st by blast
qed

lemma lower_append: "lower (a @ b) = lower a @ lower b"
  by (simp add: lower_def)

lemma lower_join: "lower (join sep xs) = join (lower sep) (map lower xs)"
  by (induction sep xs rule: join.induct) (simp_all add: lower_append, simp add: lower_def)

lemma lower_space: "lower '' '' = '' ''"
  by (simp add: lower_def lower_char_def upper_letters_def lower_letters_def)

lemma split_from_space:
  "py_isspace c \<Longrightarrow> split_from cur (xs @ c # ys) = split_from cur xs @ split_from [] ys"
  by (induction xs arbitrary: cur) simp_all

lemma split_append_space: "split (a @ '' '' @ b) = split a @ split b"
  using split_from_space [of "CHR '' ''" "[]" a b]
  by (simp add: split_def py_isspace_def)

lemma split_join: "split (join '' '' xs) = concat (map split xs)"
proof (induction "'' ''" xs rule: join.induct)
  case 1
  show ?case by (simp add: split_def)
next
  case (2 x)
  show ?case by simp
next
  case (3 x y ys)
  then show ?case by (simp only: join.simps split_append_space list.map concat.simps)
qed

lemma count_list_filter:
  "count_list (filter P ws) w = (if P w then count_list ws w else 0)"
  by (induction ws) auto

lemma count_list_pos: "w \<in> set ws \<Longrightarrow> 0 < count_list ws w"
  using count_list_0_iff [of ws w] by simp

lemma all_words:
  "split (lower (join '' '' xs)) = concat (map (\<lambda>s. split (lower s)) xs)"
  by (simp add: lower_join lower_space split_join comp_def)

lemma astype_str_present:
  assumes "None \<notin> set cells"
  shows "astype_str missing_text cells = cells"
proof -
  have "(case p of (i, c) \<Rightarrow> (case c of None \<Rightarrow> missing_text i | Some s \<Rightarrow> Some s)) = snd p"
    if "p \<in> set (enumerate 0 cells)" for p
  proof -
    from that have "snd p \<in> snd ` set (enumerate 0 cells)" by (rule imageI)
    then have "snd p \<in> set cells" by (simp only: set_map [symmetric] map_snd_enumerate)
    with assms obtain s where "snd p = Some s" by (cases "snd p") auto
    then show ?thesis by (cases p) simp
  qed
  then have "astype_str missing_text cells = map snd (enumerate 0 cells)"
    unfolding astype_str_def by (intro map_cong) simp_all
  then show ?thesis by simp
qed

lemma lower_latin1: "lower [CHR ''Q'', CHR 0xC9, CHR 0xD7, CHR 0xDF] = [CHR ''q'', CHR 0xE9, CHR 0xD7, CHR 0xDF]"
  by (simp add: lower_def lower_char_def upper_letters_def lower_letters_def)

lemma split_latin1:
  "split [CHR ''a'', CHR 0xA0, CHR ''b'', CHR 0x85, CHR 0x0D, CHR ''c'', CHR 0x20] = [''a'', ''b'', ''c'']"
  by (simp add: split_def py_isspace_def)

lemma map_Some_dropna: "None \<notin> set cells \<Longrightarrow> map Some (dropna cells) = cells"
  by (induction cells rule: dropna.induct) simp_all

lemma bit_length_bounds: "0 < n \<Longrightarrow> 2 ^ (bit_length n - 1) \<le> n \<and> n < 2 ^ bit_length n"
proof (induction n rule: bit_length.induct)
  case (1 n)
  show ?case
  proof (cases "n div 2 = 0")
    case True
    with "1.prems" have "n = 1" by (auto simp: div_eq_0_iff)
    then show ?thesis by (simp add: bit_length.simps)
  next
    case False
    with "1.IH" "1.prems" have IH: "2 ^ (bit_length (n div 2) - 1) \<le> n div 2" "n div 2 < 2 ^ bit_length (n div 2)"
      by auto
    have bl: "bit_length n = Suc (bit_length (n div 2))"
      using "1.prems" by (subst bit_length.simps) simp
    have pos: "0 < bit_length (n div 2)" using False by (subst bit_length.simps) simp
    then have "(2::nat) ^ (bit_length n - 1) = 2 * 2 ^ (bit_length (n div 2) - 1)"
      by (cases "bit_length (n div 2)") (simp_all add: bl)
    also have "\<dots> \<le> 2 * (n div 2)" using IH(1) by simp
    also have "\<dots> \<le> n" by simp
    finally have lo: "2 ^ (bit_length n - 1) \<le> n" .
    have "n < 2 * (n div 2) + 2" by presburger
    also have "\<dots> \<le> 2 * 2 ^ bit_length (n div 2)" using IH(2) by simp
    finally have "n < 2 ^ bit_length n" by (simp add: bl)
    with lo show ?thesis ..
  qed
qed


lemma log2_floor_bounds:
  assumes "0 < q"
  shows "2 powi log2_floor q \<le> q \<and> q < 2 powi (log2_floor q + 1)"
proof (cases "1 \<le> q")
  case True
  define n where "n = nat \<lfloor>q\<rfloor>"
  from True have n: "0 < n" and fl: "\<lfloor>q\<rfloor> = int n" by (simp_all add: n_def)
  from bit_length_bounds [OF n]
  have lo: "2 ^ (bit_length n - 1) \<le> n" and hi: "n < 2 ^ bit_length n" by simp_all
  from hi have bpos: "0 < bit_length n" using n by (cases "bit_length n") simp_all
  have k: "log2_floor q = int (bit_length n - 1)"
    using True bpos by (simp add: log2_floor_def n_def [symmetric])
  have "(2::rat) ^ (bit_length n - 1) \<le> of_nat n"
    using lo by (metis of_nat_le_iff of_nat_numeral of_nat_power)
  also have "(of_nat n :: rat) \<le> q" using fl of_int_floor_le [of q] by simp
  finally have l: "2 powi log2_floor q \<le> q" by (simp only: k power_int_of_nat)
  have "q < of_int \<lfloor>q\<rfloor> + 1" by linarith
  also have "\<dots> = of_nat (n + 1)" by (simp add: fl)
  also have "\<dots> \<le> (2::rat) ^ bit_length n"
    using hi by (metis Suc_eq_plus1 Suc_leI of_nat_le_iff of_nat_numeral of_nat_power)
  finally have "q < 2 powi (log2_floor q + 1)"
    using bpos by (simp add: k power_int_def nat_add_distrib)
  with l show ?thesis ..
next
  case False
  with assms have q: "0 < q" "q < 1" by simp_all
  define x where "x = 1 / q"
  have x: "1 < x" using q by (simp add: x_def)
  define m where "m = nat (\<lceil>x\<rceil> - 1)"
  have c: "2 \<le> \<lceil>x\<rceil>" using x by linarith
  then have m: "0 < m" and ce: "\<lceil>x\<rceil> = int m + 1" by (simp_all add: m_def)
  from bit_length_bounds [OF m]
  have lo: "2 ^ (bit_length m - 1) \<le> m" and hi: "m < 2 ^ bit_length m" by simp_all
  from hi have bpos: "0 < bit_length m" using m by (cases "bit_length m") simp_all
  have k: "log2_floor q = - int (bit_length m)"
    using False by (simp add: log2_floor_def m_def x_def)
  have "x \<le> of_int \<lceil>x\<rceil>" by linarith
  also have "\<dots> = of_nat (m + 1)" by (simp add: ce)
  also have "\<dots> \<le> (2::rat) ^ bit_length m"
    using hi by (metis Suc_eq_plus1 Suc_leI of_nat_le_iff of_nat_numeral of_nat_power)
  finally have xle: "x \<le> 2 ^ bit_length m" .
  have "(2::rat) ^ (bit_length m - 1) \<le> of_nat m"
    using lo by (metis of_nat_le_iff of_nat_numeral of_nat_power)
  also have "\<dots> = of_int \<lceil>x\<rceil> - 1" by (simp add: ce)
  also have "\<dots> < x" by linarith
  finally have xgt: "2 ^ (bit_length m - 1) < x" .
  have "1 / 2 ^ bit_length m \<le> 1 / x"
    using xle x by (intro divide_left_mono) simp_all
  then have l: "2 powi log2_floor q \<le> q"
    by (simp add: k power_int_minus x_def field_simps)
  have "1 / x < 1 / 2 ^ (bit_length m - 1)"
    using xgt x by (intro divide_strict_left_mono mult_pos_pos) simp_all
  moreover have "log2_floor q + 1 = - int (bit_length m - 1)" using bpos by (simp add: k)
  ultimately have "q < 2 powi (log2_floor q + 1)"
    by (simp add: power_int_minus x_def field_simps)
  with l show ?thesis ..
qed

lemma log2_floor_unique:
  assumes "2 powi k \<le> q" and "q < 2 powi (k + 1)"
  shows "log2_floor q = k"
proof -
  have pos: "0 < q" using assms(1) zero_less_power_int [of "2::rat" k] by linarith
  from log2_floor_bounds [OF pos]
  have lo: "2 powi log2_floor q \<le> q" and hi: "q < 2 powi (log2_floor q + 1)" by simp_all
  have "\<not> log2_floor q < k"
  proof
    assume "log2_floor q < k"
    then have "log2_floor q + 1 \<le> k" by simp
    then have "(2::rat) powi (log2_floor q + 1) \<le> 2 powi k"
      by (intro power_int_increasing) simp_all
    with hi assms(1) show False by linarith
  qed
  moreover have "\<not> k < log2_floor q"
  proof
    assume "k < log2_floor q"
    then have "k + 1 \<le> log2_floor q" by simp
    then have "(2::rat) powi (k + 1) \<le> 2 powi log2_floor q"
      by (intro power_int_increasing) simp_all
    with lo assms(2) show False by linarith
  qed
  ultimately show ?thesis by simp
qed

lemma log2_floor_mono:
  assumes "0 < x" and "x \<le> y"
  shows "log2_floor x \<le> log2_floor y"
proof (rule ccontr)
  assume "\<not> log2_floor x \<le> log2_floor y"
  then have "log2_floor y + 1 \<le> log2_floor x" by simp
  then have "(2::rat) powi (log2_floor y + 1) \<le> 2 powi log2_floor x"
    by (intro power_int_increasing) simp_all
  moreover from assms have "0 < y" by simp
  ultimately show False
    using log2_floor_bounds [OF assms(1)] log2_floor_bounds [OF \<open>0 < y\<close>] assms(2) by linarith
qed

lemma round_half_even_cases:
  "round_half_even x = \<lfloor>x\<rfloor> \<or> round_half_even x = \<lfloor>x\<rfloor> + 1"
  by (simp add: round_half_even_def Let_def)

lemma round_half_even_of_int [simp]: "round_half_even (of_int m) = m"
  by (simp add: round_half_even_def)

lemma round_half_even_mono:
  assumes "x \<le> y"
  shows "round_half_even x \<le> round_half_even y"
proof (cases "\<lfloor>x\<rfloor> = \<lfloor>y\<rfloor>")
  case True
  with assms show ?thesis by (auto simp add: round_half_even_def Let_def)
next
  case False
  with assms have "\<lfloor>x\<rfloor> + 1 \<le> \<lfloor>y\<rfloor>" using floor_mono [OF assms] by linarith
  moreover have "round_half_even x \<le> \<lfloor>x\<rfloor> + 1"
    using round_half_even_cases [of x] by auto
  moreover have "\<lfloor>y\<rfloor> \<le> round_half_even y"
    using round_half_even_cases [of y] by auto
  ultimately show ?thesis by linarith
qed


lemma binary64_0 [simp]: "binary64 0 = 0"
  by (simp add: binary64_def)

lemma binary64_pos:
  "0 < q \<Longrightarrow> binary64 q
     = of_int (round_half_even (q / 2 powi (log2_floor q - 52))) * 2 powi (log2_floor q - 52)"
  by (simp add: binary64_def Let_def)

lemma binary64_eval:
  assumes "2 powi (e + 52) \<le> q" and "q < 2 powi (e + 53)"
  shows "binary64 q = of_int (round_half_even (q / 2 powi e)) * 2 powi e"
proof -
  have pos: "0 < q" using assms(1) zero_less_power_int [of "2::rat" "e + 52"] by linarith
  have "q < 2 powi (e + 52 + 1)" using assms(2) by (simp add: add.commute add.left_commute)
  with assms(1) have "log2_floor q = e + 52" by (rule log2_floor_unique)
  with pos show ?thesis by (simp add: binary64_pos)
qed

lemma scaled_bounds:
  assumes "0 < q"
  shows "2 ^ 52 \<le> q / 2 powi (log2_floor q - 52)"
    and "q / 2 powi (log2_floor q - 52) < 2 ^ 53"
proof -
  let ?k = "log2_floor q"
  have u: "(2::rat) powi ?k = 2 powi (?k - 52) * 2 ^ 52"
    using power_int_add [of "2::rat" "?k - 52" 52] by simp
  have u1: "(2::rat) powi (?k + 1) = 2 powi (?k - 52) * 2 ^ 53"
    using power_int_add [of "2::rat" "?k - 52" 53] by (simp add: add.commute)
  have p: "(0::rat) < 2 powi (?k - 52)" by simp
  from log2_floor_bounds [OF assms]
  have "2 powi (?k - 52) * 2 ^ 52 \<le> q" and "q < 2 powi (?k - 52) * 2 ^ 53"
    by (simp_all only: u [symmetric] u1 [symmetric])
  then show "2 ^ 52 \<le> q / 2 powi (?k - 52)" and "q / 2 powi (?k - 52) < 2 ^ 53"
    using p by (simp_all add: pos_le_divide_eq pos_divide_less_eq mult.commute)
qed

lemma binary64_ge_pow:
  assumes "0 < q"
  shows "2 powi log2_floor q \<le> binary64 q"
proof -
  let ?u = "(2::rat) powi (log2_floor q - 52)"
  have "(of_int (2 ^ 52) :: rat) \<le> q / ?u" using scaled_bounds(1) [OF assms] by simp
  then have "round_half_even (of_int (2 ^ 52)) \<le> round_half_even (q / ?u)"
    by (rule round_half_even_mono)
  then have "(2::int) ^ 52 \<le> round_half_even (q / ?u)" by (simp only: round_half_even_of_int)
  then have "(of_int (2 ^ 52) :: rat) \<le> of_int (round_half_even (q / ?u))"
    by (simp only: of_int_le_iff)
  then have "2 ^ 52 * ?u \<le> of_int (round_half_even (q / ?u)) * ?u"
    by (intro mult_right_mono) simp_all
  moreover have "(2::rat) powi log2_floor q = 2 ^ 52 * ?u"
    using power_int_add [of "2::rat" 52 "log2_floor q - 52"] by simp
  ultimately show ?thesis using assms by (simp only: binary64_pos)
qed

lemma binary64_le_pow:
  assumes "0 < q"
  shows "binary64 q \<le> 2 powi (log2_floor q + 1)"
proof -
  let ?u = "(2::rat) powi (log2_floor q - 52)"
  have "q / ?u \<le> of_int (2 ^ 53)" using scaled_bounds(2) [OF assms] by simp
  then have "round_half_even (q / ?u) \<le> round_half_even (of_int (2 ^ 53))"
    by (rule round_half_even_mono)
  then have "round_half_even (q / ?u) \<le> (2::int) ^ 53" by (simp only: round_half_even_of_int)
  then have "(of_int (round_half_even (q / ?u)) :: rat) \<le> of_int (2 ^ 53)"
    by (simp only: of_int_le_iff)
  then have "of_int (round_half_even (q / ?u)) * ?u \<le> 2 ^ 53 * ?u"
    by (intro mult_right_mono) simp_all
  moreover have "(2::rat) powi (log2_floor q + 1) = 2 ^ 53 * ?u"
    using power_int_add [of "2::rat" 53 "log2_floor q - 52"] by (simp add: add.commute)
  ultimately show ?thesis using assms by (simp only: binary64_pos)
qed

lemma binary64_mono_pos:
  assumes "0 < x" and "x \<le> y"
  shows "binary64 x \<le> binary64 y"
proof -
  from assms have y: "0 < y" by simp
  have le: "log2_floor x \<le> log2_floor y" using assms by (rule log2_floor_mono)
  show ?thesis
  proof (cases "log2_floor x = log2_floor y")
    case True
    let ?u = "(2::rat) powi (log2_floor y - 52)"
    have "x / ?u \<le> y / ?u" using assms(2) by (intro divide_right_mono) simp_all
    then have "round_half_even (x / ?u) \<le> round_half_even (y / ?u)"
      by (rule round_half_even_mono)
    then have "(of_int (round_half_even (x / ?u)) :: rat) * ?u
        \<le> of_int (round_half_even (y / ?u)) * ?u"
      by (intro mult_right_mono) simp_all
    then show ?thesis using assms(1) y True by (simp only: binary64_pos)
  next
    case False
    with le have "log2_floor x + 1 \<le> log2_floor y" by simp
    then have "(2::rat) powi (log2_floor x + 1) \<le> 2 powi log2_floor y"
      by (intro power_int_increasing) simp_all
    with binary64_le_pow [OF assms(1)] binary64_ge_pow [OF y] show ?thesis by linarith
  qed
qed

lemma binary64_nonneg: "0 \<le> q \<Longrightarrow> 0 \<le> binary64 q"
proof (cases "q = 0")
  case True
  then show ?thesis by simp
next
  case False
  assume "0 \<le> q"
  with False have pos: "0 < q" by simp
  have "(0::rat) < 2 powi log2_floor q" by simp
  with binary64_ge_pow [OF pos] show ?thesis by linarith
qed

lemma binary64_mono:
  assumes "0 \<le> x" and "x \<le> y"
  shows "binary64 x \<le> binary64 y"
proof (cases "x = 0")
  case True
  with assms binary64_nonneg [of y] show ?thesis by simp
next
  case False
  with assms(1) have "0 < x" by simp
  then show ?thesis using assms(2) by (rule binary64_mono_pos)
qed

lemma round_half_even_near:
  assumes "\<bar>x - of_int m\<bar> < 1 / 2"
  shows "round_half_even x = m"
proof (cases "of_int m \<le> x")
  case True
  with assms have "\<lfloor>x\<rfloor> = m" by (intro floor_unique) (simp_all add: abs_if)
  with assms True show ?thesis by (simp add: round_half_even_def Let_def abs_if)
next
  case False
  with assms have "\<lfloor>x\<rfloor> = m - 1" by (intro floor_unique) (simp_all add: abs_if)
  with assms False show ?thesis by (simp add: round_half_even_def Let_def abs_if)
qed

lemma binary64_value:
  assumes "2 powi (e + 52) \<le> q" and "q < 2 powi (e + 53)"
    and "\<bar>q / 2 powi e - of_int m\<bar> < 1 / 2"
  shows "binary64 q = of_int m * 2 powi e"
  using binary64_eval [OF assms(1,2)] round_half_even_near [OF assms(3)] by simp

lemma binary64_exact:
  assumes "2 ^ 52 \<le> m" and "m < 2 ^ 53"
  shows "binary64 (of_int m * 2 powi e) = of_int m * 2 powi e"
proof (rule binary64_value)
  have lo: "(2::rat) powi (e + 52) = 2 ^ 52 * 2 powi e"
    using power_int_add [of "2::rat" 52 e] by (simp add: add.commute)
  have hi: "(2::rat) powi (e + 53) = 2 ^ 53 * 2 powi e"
    using power_int_add [of "2::rat" 53 e] by (simp add: add.commute)
  have "(of_int (2 ^ 52) :: rat) \<le> of_int m" using assms(1) by (simp only: of_int_le_iff)
  then have "2 ^ 52 * (2::rat) powi e \<le> of_int m * 2 powi e"
    by (intro mult_right_mono) simp_all
  then show "(2::rat) powi (e + 52) \<le> of_int m * 2 powi e" by (simp only: lo)
  have "(of_int m :: rat) < of_int (2 ^ 53)" using assms(2) by (simp only: of_int_less_iff)
  then have "of_int m * (2::rat) powi e < 2 ^ 53 * 2 powi e"
    by (intro mult_strict_right_mono) simp_all
  then show "of_int m * (2::rat) powi e < 2 powi (e + 53)" by (simp only: hi)
  show "\<bar>of_int m * (2::rat) powi e / 2 powi e - of_int m\<bar> < 1 / 2" by simp
qed

lemma binary64_1 [simp]: "binary64 1 = 1"
  using binary64_exact [of "2 ^ 52" "- 52"] by (simp add: power_int_minus)

lemma binary64_100 [simp]: "binary64 100 = 100"
  using binary64_exact [of "100 * 2 ^ 46" "- 46"] by (simp add: power_int_minus)

lemma round_half_even_error: "\<bar>of_int (round_half_even x) - x\<bar> \<le> 1 / 2"
proof -
  define d where "d = x - of_int \<lfloor>x\<rfloor>"
  have d: "0 \<le> d" "d < 1" by (simp_all add: d_def) linarith
  have "round_half_even x = \<lfloor>x\<rfloor> \<and> d \<le> 1 / 2
      \<or> round_half_even x = \<lfloor>x\<rfloor> + 1 \<and> 1 / 2 \<le> d"
    by (auto simp add: round_half_even_def Let_def d_def)
  then show ?thesis
  proof
    assume a: "round_half_even x = \<lfloor>x\<rfloor> \<and> d \<le> 1 / 2"
    then have "of_int (round_half_even x) - x = - d" by (simp add: d_def)
    with a d show ?thesis by simp
  next
    assume a: "round_half_even x = \<lfloor>x\<rfloor> + 1 \<and> 1 / 2 \<le> d"
    then have "of_int (round_half_even x) - x = 1 - d" by (simp add: d_def)
    with a d show ?thesis by simp
  qed
qed

lemma binary64_error:
  assumes "0 \<le> q"
  shows "binary64 q - q \<le> q / 2 ^ 53" and "q - binary64 q \<le> q / 2 ^ 53"
proof -
  have "\<bar>binary64 q - q\<bar> \<le> q / 2 ^ 53"
  proof (cases "q = 0")
    case True
    then show ?thesis by simp
  next
    case False
    with assms have pos: "0 < q" by simp
    let ?u = "(2::rat) powi (log2_floor q - 52)"
    let ?r = "(of_int (round_half_even (q / ?u)) :: rat)"
    have u: "0 < ?u" by simp
    have "\<bar>?r - q / ?u\<bar> * ?u \<le> 1 / 2 * ?u"
      using round_half_even_error [of "q / ?u"] by (intro mult_right_mono) simp_all
    moreover have "\<bar>?r - q / ?u\<bar> * ?u = \<bar>(?r - q / ?u) * ?u\<bar>"
      by (simp add: abs_mult)
    moreover have "(?r - q / ?u) * ?u = ?r * ?u - q"
      by (simp add: left_diff_distrib)
    moreover have "binary64 q = ?r * ?u" using pos by (rule binary64_pos)
    ultimately have e: "\<bar>binary64 q - q\<bar> \<le> ?u / 2" by simp
    have "2 ^ 52 \<le> q / ?u" using scaled_bounds(1) [OF pos] .
    then have "2 ^ 52 * ?u \<le> q" using u by (simp add: pos_le_divide_eq)
    then have "?u / 2 \<le> q / 2 ^ 53" by simp
    with e show ?thesis by linarith
  qed
  then show "binary64 q - q \<le> q / 2 ^ 53" and "q - binary64 q \<le> q / 2 ^ 53"
    by (simp_all only: abs_le_iff minus_diff_eq)
qed

lemma binary64_upper: "0 \<le> q \<Longrightarrow> binary64 q \<le> q * (1 + 1 / 2 ^ 53)"
  using binary64_error(1) [of q] by (simp add: algebra_simps)

lemma binary64_lower: "0 \<le> q \<Longrightarrow> q * (1 - 1 / 2 ^ 53) \<le> binary64 q"
  using binary64_error(2) [of q] by (simp add: algebra_simps)


lemma binary64_of_nat_ge_1: "0 < b \<Longrightarrow> 1 \<le> binary64 (of_nat b)"
  using binary64_mono [of 1 "of_nat b"] by simp

lemma quotient_bounds:
  assumes "a \<le> b" and "0 < b"
  shows "0 \<le> binary64 (binary64 (of_nat a) / binary64 (of_nat b))"
    and "binary64 (binary64 (of_nat a) / binary64 (of_nat b)) \<le> 1"
proof -
  let ?A = "binary64 (of_nat a)" and ?B = "binary64 (of_nat b)"
  have A: "0 \<le> ?A" by (rule binary64_nonneg) simp
  have B: "1 \<le> ?B" using assms(2) by (rule binary64_of_nat_ge_1)
  have AB: "?A \<le> ?B" using assms(1) by (intro binary64_mono) simp_all
  have q0: "0 \<le> ?A / ?B" using A B by simp
  have q1: "?A / ?B \<le> 1" using AB B by (simp add: divide_le_eq_1)
  show "0 \<le> binary64 (?A / ?B)" using q0 by (rule binary64_nonneg)
  show "binary64 (?A / ?B) \<le> 1" using binary64_mono [OF q0 q1] by simp
qed

lemma percentage_bounds:
  assumes "a \<le> b" and "0 < b"
  shows "0 \<le> binary64 (binary64 (binary64 (of_nat a) / binary64 (of_nat b)) * 100)"
    and "binary64 (binary64 (binary64 (of_nat a) / binary64 (of_nat b)) * 100) \<le> 100"
proof -
  let ?q = "binary64 (binary64 (of_nat a) / binary64 (of_nat b))"
  from quotient_bounds [OF assms] have q: "0 \<le> ?q" "?q \<le> 1" by simp_all
  then have r: "0 \<le> ?q * 100" "?q * 100 \<le> 100" by simp_all
  show "0 \<le> binary64 (?q * 100)" using r(1) by (rule binary64_nonneg)
  show "binary64 (?q * 100) \<le> 100" using binary64_mono [OF r] by simp
qed

lemma percentage_upper:
  assumes "0 < b"
  shows "binary64 (binary64 (binary64 (of_nat a) / binary64 (of_nat b)) * 100)
           * (1 - 1 / 2 ^ 53)
         \<le> 100 * (of_nat a / of_nat b) * (1 + 1 / 2 ^ 53) ^ 3"
proof -
  let ?e = "(1 / 2 ^ 53 :: rat)"
  let ?A = "binary64 (of_nat a)" and ?B = "binary64 (of_nat b)"
  let ?q = "binary64 (?A / ?B)"
  have A0: "0 \<le> ?A" by (rule binary64_nonneg) simp
  have B1: "1 \<le> ?B" using assms by (rule binary64_of_nat_ge_1)
  have b: "(0::rat) < of_nat b" using assms by simp
  have A: "?A \<le> of_nat a * (1 + ?e)" by (rule binary64_upper) simp
  have B: "of_nat b * (1 - ?e) \<le> ?B" by (rule binary64_lower) simp
  have q0: "0 \<le> ?A / ?B" using A0 B1 by simp
  have q: "?q \<le> ?A / ?B * (1 + ?e)" using q0 by (rule binary64_upper)
  have qn: "0 \<le> ?q" using q0 by (rule binary64_nonneg)
  have p: "binary64 (?q * 100) \<le> ?q * 100 * (1 + ?e)"
    using qn by (intro binary64_upper) simp
  have "binary64 (?q * 100) * (1 - ?e) \<le> ?q * 100 * (1 + ?e) * (1 - ?e)"
    using p by (intro mult_right_mono) simp_all
  also have "\<dots> \<le> ?A / ?B * (1 + ?e) * 100 * (1 + ?e) * (1 - ?e)"
    using q by (intro mult_right_mono) simp_all
  also have "\<dots> = ?A * (100 * (1 + ?e) ^ 2) * ((1 - ?e) / ?B)"
    by (simp add: power2_eq_square)
  also have "\<dots> \<le> ?A * (100 * (1 + ?e) ^ 2) * (1 / of_nat b)"
  proof (intro mult_left_mono)
    have "(1 - ?e) * of_nat b \<le> ?B" using B by (simp add: mult.commute)
    then show "(1 - ?e) / ?B \<le> 1 / of_nat b"
      using B1 b by (simp add: field_simps)
    show "0 \<le> ?A * (100 * (1 + ?e) ^ 2)" using A0 by simp
  qed
  also have "\<dots> \<le> of_nat a * (1 + ?e) * (100 * (1 + ?e) ^ 2) * (1 / of_nat b)"
    using A b by (intro mult_right_mono) simp_all
  also have "\<dots> = 100 * (of_nat a / of_nat b) * (1 + ?e) ^ 3"
    by (simp add: power2_eq_square power3_eq_cube)
  finally show ?thesis .
qed

lemma percentage_sum:
  assumes "a + a' \<le> b" and "0 < b"
  shows "binary64 (binary64 (binary64 (of_nat a) / binary64 (of_nat b)) * 100)
         + binary64 (binary64 (binary64 (of_nat a') / binary64 (of_nat b)) * 100)
         \<le> 100 + 1 / 2 ^ 44"
proof -
  let ?e = "(1 / 2 ^ 53 :: rat)"
  let ?p = "binary64 (binary64 (binary64 (of_nat a) / binary64 (of_nat b)) * 100)"
  let ?n = "binary64 (binary64 (binary64 (of_nat a') / binary64 (of_nat b)) * 100)"
  have b: "(0::rat) < of_nat b" using assms(2) by simp
  have "(of_nat (a + a') :: rat) \<le> of_nat b" using assms(1) by (simp only: of_nat_le_iff)
  then have frac: "(of_nat a / of_nat b + of_nat a' / of_nat b :: rat) \<le> 1"
    using b by (simp add: add_divide_distrib [symmetric] divide_le_eq_1)
  have "(?p + ?n) * (1 - ?e) = ?p * (1 - ?e) + ?n * (1 - ?e)" by (simp add: distrib_right)
  also have "\<dots> \<le> 100 * (of_nat a / of_nat b) * (1 + ?e) ^ 3
      + 100 * (of_nat a' / of_nat b) * (1 + ?e) ^ 3"
    using percentage_upper [OF assms(2), of a] percentage_upper [OF assms(2), of a']
    by (rule add_mono)
  also have "\<dots> = (of_nat a / of_nat b + of_nat a' / of_nat b) * (100 * (1 + ?e) ^ 3)"
    by (simp only: distrib_right mult.assoc mult.left_commute [of 100])
  also have "\<dots> \<le> 1 * (100 * (1 + ?e) ^ 3)"
    using frac by (intro mult_right_mono) simp_all
  also have "\<dots> \<le> (100 + 1 / 2 ^ 44) * (1 - ?e)" by (simp add: power_divide)
  finally have "(?p + ?n) * (1 - ?e) \<le> (100 + 1 / 2 ^ 44) * (1 - ?e)" .
  then show ?thesis by simp
qed


lemma csv_percentages_binary64_eq:
  assumes "''sentiment_label'' \<in> set (columns df)" and "rows df \<noteq> []"
  shows "csv_percentages_binary64 df =
    Inr (Some
      (binary64 (binary64 (binary64 (of_nat (count_list (map sentiment_label (rows df))
           (Some (if Some ''POSITIVE'' \<in> set (map sentiment_label (rows df))
                  then ''POSITIVE'' else ''positive''))))
         / binary64 (of_nat (length (rows df)))) * 100),
       binary64 (binary64 (binary64 (of_nat (count_list (map sentiment_label (rows df))
           (Some (if Some ''NEGATIVE'' \<in> set (map sentiment_label (rows df))
                  then ''NEGATIVE'' else ''negative''))))
         / binary64 (of_nat (length (rows df)))) * 100)))"
  using assms
  by (simp add: csv_percentages_binary64_def Let_def true_div_binary64_def len_def nested_get
      count_list_dropna set_dropna del: set_map)

lemma binary64_small:
  "binary64 2 = 2" "binary64 9 = 9" "binary64 11 = 11"
  using binary64_exact [of "2 ^ 52" "- 51"] binary64_exact [of "9 * 2 ^ 49" "- 49"]
    binary64_exact [of "11 * 2 ^ 49" "- 49"]
  by (simp_all add: power_int_minus)

lemma binary64_2_11:
  "binary64 (binary64 (2 / 11) * 100) = 5117726849284655 / 2 ^ 48"
proof -
  have a: "binary64 (2 / 11) = 6550690367084358 / 2 ^ 55"
    using binary64_value [of "- 55" "2 / 11" 6550690367084358]
    by (simp add: power_int_minus)
  have b: "binary64 (6550690367084358 / 2 ^ 55 * 100) = 5117726849284655 / 2 ^ 48"
    using binary64_value [of "- 48" "6550690367084358 / 2 ^ 55 * 100" 5117726849284655]
    by (simp add: power_int_minus)
  show ?thesis unfolding a by (rule b)
qed

lemma binary64_9_11:
  "binary64 (binary64 (9 / 11) * 100) = 5757442705445237 / 2 ^ 46"
proof -
  have a: "binary64 (9 / 11) = 7369526662969903 / 2 ^ 53"
    using binary64_value [of "- 53" "9 / 11" 7369526662969903]
    by (simp add: power_int_minus)
  have b: "binary64 (7369526662969903 / 2 ^ 53 * 100) = 5757442705445237 / 2 ^ 46"
    using binary64_value [of "- 46" "7369526662969903 / 2 ^ 53 * 100" 5757442705445237]
    by (simp add: power_int_minus)
  show ?thesis unfolding a by (rule b)
qed

section \<open>Filtering: the score threshold\<close>

text \<open>
  C1 (as amended). On a frame with a score column the threshold keeps, of the rows that
  pass the label step, exactly those whose score is defined and at least
  \<open>min_confidence\<close>, in order. A row whose score is missing is never kept, because a
  comparison with NaN is False.
\<close>

theorem score_threshold_keeps_defined_scores:
  assumes "''sentiment_score'' \<in> set (columns df)"
  shows "rows (apply_filters df sentiment_filter min_confidence) =
           filter (\<lambda>r. \<exists>v. sentiment_score r = Some v \<and> min_confidence \<le> v)
             (rows (label_step df sentiment_filter df))
         \<and> (\<forall>r \<in> set (rows (apply_filters df sentiment_filter min_confidence)).
               sentiment_score r \<noteq> None)"
proof -
  have kept: "rows (apply_filters df sentiment_filter min_confidence) =
           filter (\<lambda>r. \<exists>v. sentiment_score r = Some v \<and> min_confidence \<le> v)
             (rows (label_step df sentiment_filter df))"
    using assms by (simp add: apply_filters_def score_step_def ge_cell_iff)
  then have "\<forall>r \<in> set (rows (apply_filters df sentiment_filter min_confidence)).
               sentiment_score r \<noteq> None"
    by auto
  with kept show ?thesis by simp
qed

text \<open>
  The theorem at a frame of two rows, the second without a score: only the first is kept.
\<close>

theorem score_threshold_keeps_defined_scores_witness:
  "''sentiment_score'' \<in> set [''comment'', ''sentiment_label'', ''sentiment_score'']
   \<and> rows (apply_filters
       \<lparr>columns = [''comment'', ''sentiment_label'', ''sentiment_score''],
        rows = [\<lparr>comment = Some ''fine'', sentiment_label = Some ''POSITIVE'',
                 sentiment_score = Some 1, summary = None\<rparr>,
                \<lparr>comment = Some ''late'', sentiment_label = Some ''NEGATIVE'',
                 sentiment_score = None, summary = None\<rparr>]\<rparr>
       (Some [Some ''POSITIVE'', Some ''NEGATIVE'']) (1 / 2))
     = [\<lparr>comment = Some ''fine'', sentiment_label = Some ''POSITIVE'',
          sentiment_score = Some 1, summary = None\<rparr>]"
  using score_threshold_keeps_defined_scores
    [of "\<lparr>columns = [''comment'', ''sentiment_label'', ''sentiment_score''],
        rows = [\<lparr>comment = Some ''fine'', sentiment_label = Some ''POSITIVE'',
                 sentiment_score = Some 1, summary = None\<rparr>,
                \<lparr>comment = Some ''late'', sentiment_label = Some ''NEGATIVE'',
                 sentiment_score = None, summary = None\<rparr>]\<rparr>"
        "Some [Some ''POSITIVE'', Some ''NEGATIVE'']" "1 / 2"]
  by (simp add: label_step_def)

text \<open>
  C1 as stated fails: a row whose score is missing is dropped, even at the threshold 0 and
  with its label selected.
\<close>

theorem missing_score_row_is_dropped:
  "sentiment_score \<lparr>comment = Some ''fine'', sentiment_label = Some ''POSITIVE'',
       sentiment_score = None, summary = None\<rparr> = None \<and>
   rows (apply_filters
     \<lparr>columns = [''comment'', ''sentiment_label'', ''sentiment_score''],
      rows = [\<lparr>comment = Some ''fine'', sentiment_label = Some ''POSITIVE'',
               sentiment_score = None, summary = None\<rparr>]\<rparr>
     (Some [Some ''POSITIVE'']) 0) = []"
  by (simp add: apply_filters_def score_step_def label_step_def)

section \<open>Filtering: the default selection\<close>

text \<open>
  C2 (as amended). With every label of the frame selected and the threshold 0 the
  filtered frame is the frame itself, provided that, when the frame has a score column,
  every score is defined and not negative.
\<close>

theorem full_selection_returns_table:
  assumes "''sentiment_score'' \<in> set (columns df) \<Longrightarrow>
             \<forall>r \<in> set (rows df). \<exists>v. sentiment_score r = Some v \<and> 0 \<le> v"
  shows "apply_filters df (default_sentiment_filter df) 0 = df"
proof (cases "''sentiment_score'' \<in> set (columns df)")
  case True
  from assms [OF True] have "filter (\<lambda>r. ge_cell (sentiment_score r) 0) (rows df) = rows df"
    by (auto simp add: filter_id_conv)
  then have "df\<lparr>rows := filter (\<lambda>r. ge_cell (sentiment_score r) 0) (rows df)\<rparr> = df"
    by simp
  with True show ?thesis
    by (simp add: apply_filters_def score_step_def label_step_default)
next
  case False
  then show ?thesis
    by (simp add: apply_filters_def score_step_def label_step_default)
qed

theorem full_selection_returns_table_witness:
  "list_all (\<lambda>r. \<exists>v. sentiment_score r = Some v \<and> 0 \<le> v)
       [\<lparr>comment = Some ''fine'', sentiment_label = Some ''POSITIVE'',
          sentiment_score = Some 1, summary = None\<rparr>,
        \<lparr>comment = Some ''late'', sentiment_label = None,
          sentiment_score = Some 0, summary = None\<rparr>]
   \<and> apply_filters
       \<lparr>columns = [''comment'', ''sentiment_label'', ''sentiment_score''],
        rows = [\<lparr>comment = Some ''fine'', sentiment_label = Some ''POSITIVE'',
                 sentiment_score = Some 1, summary = None\<rparr>,
                \<lparr>comment = Some ''late'', sentiment_label = None,
                 sentiment_score = Some 0, summary = None\<rparr>]\<rparr>
       (Some [Some ''POSITIVE'', None]) 0
     = \<lparr>columns = [''comment'', ''sentiment_label'', ''sentiment_score''],
        rows = [\<lparr>comment = Some ''fine'', sentiment_label = Some ''POSITIVE'',
                 sentiment_score = Some 1, summary = None\<rparr>,
                \<lparr>comment = Some ''late'', sentiment_label = None,
                 sentiment_score = Some 0, summary = None\<rparr>]\<rparr>"
  using full_selection_returns_table
    [of "\<lparr>columns = [''comment'', ''sentiment_label'', ''sentiment_score''],
        rows = [\<lparr>comment = Some ''fine'', sentiment_label = Some ''POSITIVE'',
                 sentiment_score = Some 1, summary = None\<rparr>,
                \<lparr>comment = Some ''late'', sentiment_label = None,
                 sentiment_score = Some 0, summary = None\<rparr>]\<rparr>"]
  by (simp add: default_sentiment_filter_def unique_def)

text \<open>
  C2 as stated fails: with every label selected and the threshold 0, a row whose score is
  missing is still dropped, so the result is not the frame.
\<close>

theorem full_selection_drops_missing_score:
  "apply_filters
     \<lparr>columns = [''comment'', ''sentiment_label'', ''sentiment_score''],
      rows = [\<lparr>comment = Some ''fine'', sentiment_label = Some ''POSITIVE'',
               sentiment_score = None, summary = None\<rparr>]\<rparr>
     (default_sentiment_filter
       \<lparr>columns = [''comment'', ''sentiment_label'', ''sentiment_score''],
        rows = [\<lparr>comment = Some ''fine'', sentiment_label = Some ''POSITIVE'',
               sentiment_score = None, summary = None\<rparr>]\<rparr>) 0
   \<noteq> \<lparr>columns = [''comment'', ''sentiment_label'', ''sentiment_score''],
      rows = [\<lparr>comment = Some ''fine'', sentiment_label = Some ''POSITIVE'',
               sentiment_score = None, summary = None\<rparr>]\<rparr>"
  by (simp add: apply_filters_def score_step_def label_step_def default_sentiment_filter_def
      unique_def)

section \<open>Filtering: idempotence and the empty selection\<close>

text \<open>
  C5. Filtering the filtered frame again, with the same selection and the same threshold,
  gives the filtered frame: the same rows in the same order.
\<close>

theorem filter_idempotent:
  "apply_filters (apply_filters df sentiment_filter min_confidence)
       sentiment_filter min_confidence
     = apply_filters df sentiment_filter min_confidence"
  by (simp add: apply_filters_def score_step_def label_step_def cong: conj_cong)

text \<open>
  C10. With an empty selection the label step is skipped: the result is that of the score
  step alone, the same as without any selection.
\<close>

theorem empty_selection_skips_label_filter:
  "apply_filters df (Some []) min_confidence = score_step df min_confidence df
   \<and> apply_filters df (Some []) min_confidence = apply_filters df None min_confidence"
  by (simp add: apply_filters_def label_step_def)

section \<open>Score statistics\<close>

text \<open>
  C4 (as amended). When the filtered frame has a score column and exactly one of its rows
  has a defined score, the statistics have count 1 and the standard deviation is undefined
  (NaN): the sample standard deviation divides by \<open>N - 1\<close>, which is 0 there.
\<close>

theorem single_score_std_undefined:
  assumes "''sentiment_score'' \<in> set (columns filtered_df)"
    and "length (dropna (map sentiment_score (rows filtered_df))) = 1"
  shows "\<exists>stats. score_statistics filtered_df = Some stats \<and> count stats = 1 \<and> std stats = None"
  using assms by (simp add: score_statistics_def describe_def Let_def series_std_def)

theorem single_score_std_undefined_witness:
  "score_statistics
     \<lparr>columns = [''comment'', ''sentiment_score''],
      rows = [\<lparr>comment = Some ''fine'', sentiment_label = None,
               sentiment_score = Some (9 / 10), summary = None\<rparr>,
              \<lparr>comment = Some ''late'', sentiment_label = None,
               sentiment_score = None, summary = None\<rparr>]\<rparr>
   = Some \<lparr>count = 1, mean = Some (9 / 10), std = None, minimum = Some (9 / 10),
           median = Some (9 / 10), maximum = Some (9 / 10)\<rparr>"
  using single_score_std_undefined
    [of "\<lparr>columns = [''comment'', ''sentiment_score''],
      rows = [\<lparr>comment = Some ''fine'', sentiment_label = None,
               sentiment_score = Some (9 / 10), summary = None\<rparr>,
              \<lparr>comment = Some ''late'', sentiment_label = None,
               sentiment_score = None, summary = None\<rparr>]\<rparr>"]
  by (simp add: score_statistics_def describe_def Let_def series_std_def series_mean_def
      series_min_def series_max_def series_median_def)

text \<open>
  C4 as stated fails: with a single scored row the standard deviation is NaN, not 0.
\<close>

theorem single_score_std_is_not_zero:
  "map_option std (score_statistics
     \<lparr>columns = [''comment'', ''sentiment_score''],
      rows = [\<lparr>comment = Some ''fine'', sentiment_label = None,
               sentiment_score = Some (9 / 10), summary = None\<rparr>]\<rparr>) = Some None
   \<and> map_option std (score_statistics
     \<lparr>columns = [''comment'', ''sentiment_score''],
      rows = [\<lparr>comment = Some ''fine'', sentiment_label = None,
               sentiment_score = Some (9 / 10), summary = None\<rparr>]\<rparr>) \<noteq> Some (Some 0)"
  by (simp add: score_statistics_def describe_def Let_def series_std_def)

section \<open>Sentiment summary of the CSV path\<close>




text \<open>
  C6 (as amended). On a frame with a label column and at least one row, both percentages,
  as binary64 computes them, lie between 0 and 100, and their sum is at most
  \<open>100 + 1 / 2 ^ 44\<close>: the rows counted for the two are different rows, and each of the
  roundings adds a relative error of at most \<open>1 / 2 ^ 53\<close>. When every row is labelled
  \<^verbatim>\<open>POSITIVE\<close>, the positive percentage is 100 and the negative one is 0.
\<close>

theorem csv_percentages_binary64_bounded:
  assumes "''sentiment_label'' \<in> set (columns df)" and "rows df \<noteq> []"
  shows "\<exists>p n. csv_percentages_binary64 df = Inr (Some (p, n))
     \<and> 0 \<le> p \<and> p \<le> 100 \<and> 0 \<le> n \<and> n \<le> 100
     \<and> p + n \<le> 100 + 1 / 2 ^ 44
     \<and> ((\<forall>r \<in> set (rows df). sentiment_label r = Some ''POSITIVE'')
          \<longrightarrow> p = 100 \<and> n = 0)"
proof -
  let ?ls = "map sentiment_label (rows df)"
  let ?b = "length (rows df)"
  let ?kp = "Some (if Some ''POSITIVE'' \<in> set ?ls then ''POSITIVE'' else ''positive'')"
  let ?kn = "Some (if Some ''NEGATIVE'' \<in> set ?ls then ''NEGATIVE'' else ''negative'')"
  let ?a = "count_list ?ls ?kp" and ?a' = "count_list ?ls ?kn"
  let ?p = "binary64 (binary64 (binary64 (of_nat ?a) / binary64 (of_nat ?b)) * 100)"
  let ?n = "binary64 (binary64 (binary64 (of_nat ?a') / binary64 (of_nat ?b)) * 100)"
  have b: "0 < ?b" using assms(2) by simp
  have "?kp \<noteq> ?kn" by simp
  then have "?a + ?a' \<le> length ?ls" by (rule count_list_two)
  then have both: "?a + ?a' \<le> ?b" by simp
  then have a: "?a \<le> ?b" and a': "?a' \<le> ?b" by simp_all
  have p: "0 \<le> ?p" "?p \<le> 100" using percentage_bounds [OF a b] by simp_all
  have n: "0 \<le> ?n" "?n \<le> 100" using percentage_bounds [OF a' b] by simp_all
  have sum: "?p + ?n \<le> 100 + 1 / 2 ^ 44" using both b by (rule percentage_sum)
  have allpos: "?p = 100 \<and> ?n = 0"
    if all: "\<forall>r \<in> set (rows df). sentiment_label r = Some ''POSITIVE''"
  proof -
    from all have every: "\<forall>l \<in> set ?ls. l = Some ''POSITIVE''" by simp
    from b obtain r where "r \<in> set (rows df)" by (cases "rows df") auto
    with all have mem: "Some ''POSITIVE'' \<in> set ?ls" by force
    from every have neg: "Some ''NEGATIVE'' \<notin> set ?ls" "Some ''negative'' \<notin> set ?ls"
      by auto
    from every have "count_list ?ls (Some ''POSITIVE'') = length ?ls"
      by (rule count_list_all)
    then have cnt: "?a = ?b" by (simp only: mem if_True length_map)
    have zero: "?a' = 0" using neg by (simp only: if_False) (rule count_notin)
    have B: "binary64 (of_nat ?b) \<noteq> 0" using binary64_of_nat_ge_1 [OF b] by simp
    have "?p = 100" using B by (simp only: cnt) simp
    moreover have "?n = 0" by (simp only: zero) simp
    ultimately show ?thesis ..
  qed
  show ?thesis
    unfolding csv_percentages_binary64_eq [OF assms]
    using p n sum allpos by blast
qed

theorem csv_percentages_binary64_bounded_witness:
  "csv_percentages_binary64
       \<lparr>columns = [''comment'', ''sentiment_label''],
        rows = [\<lparr>comment = Some ''fine'', sentiment_label = Some ''POSITIVE'',
                 sentiment_score = None, summary = None\<rparr>,
                \<lparr>comment = Some ''good'', sentiment_label = Some ''POSITIVE'',
                 sentiment_score = None, summary = None\<rparr>]\<rparr> = Inr (Some (100, 0))"
  using csv_percentages_binary64_bounded
    [of "\<lparr>columns = [''comment'', ''sentiment_label''],
        rows = [\<lparr>comment = Some ''fine'', sentiment_label = Some ''POSITIVE'',
                 sentiment_score = None, summary = None\<rparr>,
                \<lparr>comment = Some ''good'', sentiment_label = Some ''POSITIVE'',
                 sentiment_score = None, summary = None\<rparr>]\<rparr>"]
  by auto

text \<open>
  C6 as stated fails: for 2 rows labelled \<^verbatim>\<open>POSITIVE\<close> and 9 labelled \<^verbatim>\<open>NEGATIVE\<close> the
  program gives 18.181818181818183 and 81.81818181818183, the two binary64 numbers below,
  and their sum is more than 100.
\<close>

theorem rounded_percentages_exceed_100:
  "csv_percentages_binary64
     \<lparr>columns = [''sentiment_label''],
      rows = replicate 2 \<lparr>comment = None, sentiment_label = Some ''POSITIVE'',
               sentiment_score = None, summary = None\<rparr>
           @ replicate 9 \<lparr>comment = None, sentiment_label = Some ''NEGATIVE'',
               sentiment_score = None, summary = None\<rparr>\<rparr>
   = Inr (Some (5117726849284655 / 2 ^ 48, 5757442705445237 / 2 ^ 46))
   \<and> (100 :: rat) < 5117726849284655 / 2 ^ 48 + 5757442705445237 / 2 ^ 46"
proof -
  let ?df = "\<lparr>columns = [''sentiment_label''],
      rows = replicate 2 \<lparr>comment = None, sentiment_label = Some ''POSITIVE'',
               sentiment_score = None, summary = None\<rparr>
           @ replicate 9 \<lparr>comment = None, sentiment_label = Some ''NEGATIVE'',
               sentiment_score = None, summary = None\<rparr>\<rparr>"
  have "csv_percentages_binary64 ?df
      = Inr (Some (binary64 (binary64 (binary64 2 / binary64 11) * 100),
                   binary64 (binary64 (binary64 9 / binary64 11) * 100)))"
    by (subst csv_percentages_binary64_eq) (simp_all add: eval_nat_numeral)
  then have "csv_percentages_binary64 ?df
      = Inr (Some (5117726849284655 / 2 ^ 48, 5757442705445237 / 2 ^ 46))"
    by (simp only: binary64_small binary64_2_11 binary64_9_11)
  moreover have "(100 :: rat) < 5117726849284655 / 2 ^ 48 + 5757442705445237 / 2 ^ 46"
    by simp
  ultimately show ?thesis ..
qed


section \<open>Word frequency\<close>

text \<open>
  C7 (as amended). On a filtered frame with a comment column in which no comment is
  missing, the word frequency has at most 20 entries, for pairwise different tokens; every
  token is longer than 2 characters and is no stop word, and its count is the number of
  its occurrences among the tokens of the comments, each comment lower-cased and split at
  white space on its own. The comments are strings of code points below 256; what
  \<^verbatim>\<open>astype(str)\<close> makes of a missing cell plays no part, there being none.
\<close>

theorem word_frequency_counts:
  assumes "''comment'' \<in> set (columns filtered_df)"
    and "\<forall>r \<in> set (rows filtered_df). comment r \<noteq> None"
  shows "\<exists>word_freq. word_frequency missing_text filtered_df = Inr (Some word_freq)
     \<and> length word_freq \<le> 20
     \<and> distinct (map fst word_freq)
     \<and> (\<forall>(w, c) \<in> set word_freq.
           2 < length w \<and> w \<notin> stop_words \<and> 0 < c
           \<and> c = occurrence_count filtered_df w)"
proof -
  let ?cells = "map comment (rows filtered_df)"
  let ?tokens = "concat (map (\<lambda>s. split (lower s)) (dropna ?cells))"
  let ?P = "\<lambda>word. word \<notin> stop_words \<and> length word > 2"
  let ?words = "filter ?P ?tokens"
  have present: "None \<notin> set ?cells" using assms(2) by auto
  then have "join_cells '' '' (astype_str missing_text ?cells)
      = Inr (join '' '' (dropna ?cells))"
    by (simp add: astype_str_present join_cells_def)
  then have wf: "word_frequency missing_text filtered_df = Inr (Some (take 20 (value_counts ?words)))"
    using assms(1) by (simp add: word_frequency_def Let_def all_words)
  have len: "length (take 20 (value_counts ?words)) \<le> 20" by simp
  have dist: "distinct (map fst (take 20 (value_counts ?words)))"
    using distinct_keys_value_counts [of ?words] by (simp add: take_map [symmetric])
  have ent: "2 < length w \<and> w \<notin> stop_words \<and> 0 < c \<and> c = count_list ?tokens w"
    if "(w, c) \<in> set (take 20 (value_counts ?words))" for w c
  proof -
    from that have "(w, c) \<in> set (value_counts ?words)" by (rule in_set_takeD)
    then have w: "w \<in> set ?words" and c: "c = count_list ?words w"
      by (auto simp add: set_value_counts)
    from w have P: "?P w" by simp
    from w have "0 < count_list ?words w" by (rule count_list_pos)
    with c P show ?thesis by (simp add: count_list_filter)
  qed
  from wf len dist ent show ?thesis unfolding occurrence_count_def by blast
qed

theorem word_frequency_counts_witness:
  "word_frequency stays_missing
     \<lparr>columns = [''comment''],
      rows = [\<lparr>comment = Some ''Great service and great delivery'', sentiment_label = None,
               sentiment_score = None, summary = None\<rparr>,
              \<lparr>comment = Some ''The GREAT box is up'', sentiment_label = None,
               sentiment_score = None, summary = None\<rparr>]\<rparr>
   = Inr (Some [(''great'', 3), (''service'', 1), (''delivery'', 1), (''box'', 1)])"
  using word_frequency_counts
    [of "\<lparr>columns = [''comment''],
      rows = [\<lparr>comment = Some ''Great service and great delivery'', sentiment_label = None,
               sentiment_score = None, summary = None\<rparr>,
              \<lparr>comment = Some ''The GREAT box is up'', sentiment_label = None,
               sentiment_score = None, summary = None\<rparr>]\<rparr>" stays_missing]
  by (simp add: word_frequency_def join_cells_def astype_str_def split_def lower_def
      lower_char_def upper_letters_def lower_letters_def py_isspace_def stop_words_def
      value_counts_def unique_def stays_missing_def occurrence_count_def)

text \<open>
  C7 as stated fails on a frame with a missing comment. Where \<^verbatim>\<open>astype(str)\<close> turns the
  missing cell into the text \<^verbatim>\<open>nan\<close>, the word frequency counts the token \<^verbatim>\<open>nan\<close> once,
  though it occurs in no comment; where the cell stays missing, the join raises and there
  is no word frequency at all.
\<close>

theorem missing_comment_is_counted:
  "word_frequency nan_text
     \<lparr>columns = [''comment''],
      rows = [\<lparr>comment = None, sentiment_label = None,
               sentiment_score = None, summary = None\<rparr>]\<rparr>
   = Inr (Some [(''nan'', 1)])
   \<and> occurrence_count
     \<lparr>columns = [''comment''],
      rows = [\<lparr>comment = None, sentiment_label = None,
               sentiment_score = None, summary = None\<rparr>]\<rparr> ''nan'' = 0
   \<and> word_frequency stays_missing
     \<lparr>columns = [''comment''],
      rows = [\<lparr>comment = None, sentiment_label = None,
               sentiment_score = None, summary = None\<rparr>]\<rparr>
   = Inl TypeError"
  by (simp add: word_frequency_def join_cells_def astype_str_def split_def lower_def
      lower_char_def upper_letters_def lower_letters_def py_isspace_def stop_words_def
      value_counts_def unique_def nan_text_def stays_missing_def occurrence_count_def)

section \<open>Loading\<close>

text \<open>
  C9. When \<^verbatim>\<open>json.load\<close> or \<^verbatim>\<open>pd.read_csv\<close> raises, the page holds the one error notice
  with the message of the exception, \<^verbatim>\<open>display_analysis_results\<close> is not called, and no
  Table is shown, as on the page before any upload.
\<close>

theorem failed_parse_installs_no_table:
  "(json_load f = Inl e \<longrightarrow>
      main json_load read_csv (Some f) uploaded_csv = \<lparr>notices = [Error_json e], displayed = None\<rparr>
      \<and> table (main json_load read_csv (Some f) uploaded_csv) = None)
   \<and> (read_csv f = Inl e \<longrightarrow>
      main json_load read_csv None (Some f) = \<lparr>notices = [Error_csv e], displayed = None\<rparr>
      \<and> table (main json_load read_csv None (Some f)) = None)
   \<and> table (main json_load read_csv None None) = None"
  by (simp add: main_def table_def)

theorem failed_parse_installs_no_table_witness:
  "main (\<lambda>f. if f = ''{'' then Inl ''Expecting property name'' else Inr \<lparr>data = None, total_comments = None, sentiment_analysis = None\<rparr>)
        (\<lambda>f. Inl ''No columns to parse from file'') (Some ''{'') None
     = \<lparr>notices = [Error_json ''Expecting property name''], displayed = None\<rparr>
   \<and> main (\<lambda>f. if f = ''{'' then Inl ''Expecting property name'' else Inr \<lparr>data = None, total_comments = None, sentiment_analysis = None\<rparr>)
        (\<lambda>f. Inl ''No columns to parse from file'') None (Some [])
     = \<lparr>notices = [Error_csv ''No columns to parse from file''], displayed = None\<rparr>"
  using failed_parse_installs_no_table
    [of "\<lambda>f. if f = ''{'' then Inl ''Expecting property name'' else Inr \<lparr>data = None, total_comments = None, sentiment_analysis = None\<rparr>"
        "''{''" "''Expecting property name''" "\<lambda>f. Inl ''No columns to parse from file''" None]
    failed_parse_installs_no_table
    [of "\<lambda>f. if f = ''{'' then Inl ''Expecting property name'' else Inr \<lparr>data = None, total_comments = None, sentiment_analysis = None\<rparr>"
        "[]" "''No columns to parse from file''" "\<lambda>f. Inl ''No columns to parse from file''" None]
  by simp

text \<open>
  A CSV file that is a header line with a label column and no rows is read as an empty
  frame; the percentages then divide by the row count 0, the exception is caught, and the
  page holds the error notice after the success notice.
\<close>

lemma empty_csv_raises_zero_division:
  "main json_load (\<lambda>file. Inr \<lparr>columns = [''comment'', ''sentiment_label''], rows = []\<rparr>)
     None (Some file)
   = \<lparr>notices = [Success_csv 0, Error_csv ''division by zero''], displayed = None\<rparr>"
  by (simp add: main_def csv_sentiment_analysis_def value_counts_def unique_def series_get_def
      true_div_def len_def)

end
